theory Spec2Isabelle
  imports Complex_Main "HOL-Library.Multiset"
begin

section \<open>Computer adaptive testing over the question bank\<close>

text \<open>
  The development embeds the stored procedures of the CAT migration
  (\<^verbatim>\<open>20250306000004_phase4_cat_implementation.sql\<close>) and of the test management
  migration (\<^verbatim>\<open>submit_test_answer\<close>) as HOL functions over a record of the tables
  they read and write.

  Conventions of the embedding:
  \<^item> SQL \<^verbatim>\<open>NUMERIC\<close> values are mathematical reals: the arithmetic of the procedures is
    exact, and the scale of a \<^verbatim>\<open>NUMERIC(5,2)\<close> column is not represented.
  \<^item> A nullable value that the procedures really leave or find \<^verbatim>\<open>NULL\<close> is an
    \<open>option\<close>; \<^verbatim>\<open>IF b THEN\<close> on a \<^verbatim>\<open>NULL\<close> boolean takes the \<^verbatim>\<open>ELSE\<close> branch, as in PL/pgSQL.
  \<^item> \<^verbatim>\<open>RAISE EXCEPTION\<close> and constraint violations are \<open>Inl\<close> results; an \<open>Inl\<close> carries no
    database, since the failed call is rolled back as a whole.
  \<^item> \<^verbatim>\<open>ORDER BY RANDOM()\<close> is a permutation determined by a list of random draws that
    the operation receives as an argument.
  \<^item> \<^verbatim>\<open>auth.uid()\<close> is the first argument of every \<^verbatim>\<open>SECURITY DEFINER\<close> procedure.
  \<^item> Timestamps, and the row triggers that maintain \<^verbatim>\<open>updated_at\<close> columns and the
    \<^verbatim>\<open>user_statistics\<close> aggregate, are outside the embedding.
\<close>

subsection \<open>IRT math core\<close>

text \<open>\<^verbatim>\<open>calculate_probability\<close>: the 3PL model with the logit clamped to \<open>[-35, 35]\<close>.\<close>

definition calculate_probability :: "real \<Rightarrow> real \<Rightarrow> real \<Rightarrow> real \<Rightarrow> real" where
  "calculate_probability ability discrimination difficulty guessing =
     (let logit = discrimination * (ability - difficulty);
          logit = (if logit > 35 then 35 else if logit < - 35 then - 35 else logit)
      in guessing + (1 - guessing) / (1 + exp (- logit)))"

text \<open>\<^verbatim>\<open>calculate_information\<close>: the item information function.\<close>

definition calculate_information :: "real \<Rightarrow> real \<Rightarrow> real \<Rightarrow> real \<Rightarrow> real" where
  "calculate_information ability discrimination difficulty guessing =
     (let probability = calculate_probability ability discrimination difficulty guessing
      in if guessing > 0 \<and> guessing < 1 \<and> probability > guessing \<and> probability < 1
         then (discrimination * discrimination * (probability - guessing) * (probability - guessing)) /
              ((1 - guessing) * (1 - guessing) * probability * (1 - probability))
         else discrimination * discrimination * probability * (1 - probability))"

subsection \<open>Ability estimator\<close>

text \<open>
  One row of the query that \<^verbatim>\<open>estimate_ability_mle\<close> loops over: \<^verbatim>\<open>was_correct\<close> of a
  selection (nullable) with the parameters of its question.
\<close>

record mle_row =
  was_correct :: "bool option"
  discrimination :: real
  difficulty :: real
  guessing :: real

text \<open>
  The body of the inner \<^verbatim>\<open>FOR\<close> loop: the pair is
  \<^verbatim>\<open>(v_likelihood_derivative, v_likelihood_second_derivative)\<close>.
\<close>

definition likelihood_step :: "real \<Rightarrow> real \<times> real \<Rightarrow> mle_row \<Rightarrow> real \<times> real" where
  "likelihood_step v_ability acc v_selection =
     (let v_probability = calculate_probability v_ability (discrimination v_selection)
                            (difficulty v_selection) (guessing v_selection);
          v_probability = (if v_probability < 0.001 then 0.001 else v_probability);
          v_probability = (if v_probability > 0.999 then 0.999 else v_probability);
          d1 = (if was_correct v_selection = Some True
                then fst acc + discrimination v_selection * (1 - v_probability) / v_probability
                else fst acc - discrimination v_selection * v_probability / (1 - v_probability));
          d2 = snd acc - discrimination v_selection * discrimination v_selection *
                 v_probability * (1 - v_probability)
      in (d1, d2))"

text \<open>
  The body of the \<^verbatim>\<open>WHILE\<close> loop without the counter: the Newton-Raphson step (or the fixed
  step \<open>0.1\<close> in the direction of the first derivative when the second derivative is zero),
  followed by the bound to \<open>[-4, 4]\<close>.
\<close>

definition newton_step :: "mle_row list \<Rightarrow> real \<Rightarrow> real" where
  "newton_step rows v_ability =
     (let d = foldl (likelihood_step v_ability) (0, 0) rows;
          v = (if snd d \<noteq> 0 then v_ability - fst d / snd d
               else v_ability + 0.1 * sgn (fst d));
          v = (if v < - 4 then - 4 else v);
          v = (if v > 4 then 4 else v)
      in v)"

text \<open>
  The \<^verbatim>\<open>WHILE\<close> loop. The state is \<^verbatim>\<open>(v_ability, v_prev_ability, v_iter)\<close>; the loop returns
  the state it stops in, so that the number of iterations can be read off.
\<close>

function mle_loop :: "mle_row list \<Rightarrow> real \<Rightarrow> real \<Rightarrow> nat \<Rightarrow> real \<times> real \<times> nat" where
  "mle_loop rows v_ability v_prev_ability v_iter =
     (if \<bar>v_ability - v_prev_ability\<bar> > 0.001 \<and> v_iter < 50
      then mle_loop rows (newton_step rows v_ability) v_ability (v_iter + 1)
      else (v_ability, v_prev_ability, v_iter))"
  by pat_completeness auto
termination
  by (relation "measure (\<lambda>(rows, a, p, i). 50 - i)") auto

declare mle_loop.simps [simp del]

text \<open>The loop from the initial state of the procedure: previous ability \<open>-999\<close>, counter \<open>0\<close>.\<close>

definition mle_from :: "mle_row list \<Rightarrow> real \<Rightarrow> real \<times> real \<times> nat" where
  "mle_from rows v_ability = mle_loop rows v_ability (- 999) 0"

subsection \<open>Tables\<close>

text \<open>
  One record per table, with the columns that the procedures read or write. Surrogate keys
  that no procedure reads (\<^verbatim>\<open>test_questions.id\<close>, \<^verbatim>\<open>user_question_status.id\<close>) are left out;
  \<^verbatim>\<open>UUID\<close>, \<^verbatim>\<open>TEXT\<close> and \<^verbatim>\<open>VARCHAR\<close> are strings, \<^verbatim>\<open>INTEGER\<close> is \<open>int\<close>.
\<close>

type_synonym uuid = string

record question =
  q_id :: int
  q_topic :: string
  q_question_format :: string
  q_use_partial_scoring :: bool

record answer =
  a_id :: int
  a_question_id :: int
  a_is_correct :: bool
  a_partial_credit :: real
  a_penalty_value :: real

record user_question_status_row =
  uqs_user_id :: uuid
  uqs_question_id :: int
  uqs_status :: string
  uqs_attempt_count :: int

record test =
  t_id :: int
  t_user_id :: uuid
  t_title :: string
  t_mode :: string
  t_question_count :: "int option"
  t_topics :: "string list option"
  t_status :: string

record test_question =
  tq_test_id :: int
  tq_question_id :: int
  tq_question_order :: int

record test_result =
  tr_id :: int
  tr_test_id :: int
  tr_user_id :: uuid
  tr_question_id :: int
  tr_user_response :: "string list"
  tr_is_correct :: "bool option"
  tr_score :: real
  tr_max_score :: real
  tr_time_spent_seconds :: int
  tr_is_flagged :: bool

record question_difficulty_parameter =
  qdp_question_id :: int
  qdp_discrimination :: real
  qdp_difficulty :: real
  qdp_guessing :: real

record cat_session =
  cs_id :: int
  cs_test_id :: int
  cs_user_id :: uuid
  cs_initial_ability :: real
  cs_current_ability :: real
  cs_passing_standard :: real
  cs_min_questions :: int
  cs_max_questions :: int
  cs_questions_answered :: int
  cs_status :: string

record cat_question_selection =
  sel_id :: int
  sel_cat_session_id :: int
  sel_question_id :: "int option"
  sel_position :: int
  sel_ability_estimate_before :: "real option"
  sel_ability_estimate_after :: "real option"
  sel_information_value :: "real option"
  sel_was_correct :: "bool option"

text \<open>
  The database: every table is the list of its rows, and every \<^verbatim>\<open>SERIAL\<close> key that a
  procedure reads back has its sequence (the next value it will hand out).
\<close>

record database =
  questions :: "question list"
  answers :: "answer list"
  user_question_status :: "user_question_status_row list"
  tests :: "test list"
  test_questions :: "test_question list"
  test_results :: "test_result list"
  question_difficulty_parameters :: "question_difficulty_parameter list"
  cat_sessions :: "cat_session list"
  cat_question_selections :: "cat_question_selection list"
  tests_id_seq :: int
  test_results_id_seq :: int
  cat_sessions_id_seq :: int
  cat_question_selections_id_seq :: int

datatype error =
    NotAuthorized
  | TestNotFound
  | UniqueViolation
  | ForeignKeyViolation
  | TooManyRows

text \<open>\<^verbatim>\<open>SELECT ... INTO ... FROM cat_sessions WHERE id = p_cat_session_id\<close>.\<close>

definition find_session :: "database \<Rightarrow> int \<Rightarrow> cat_session option" where
  "find_session db p_cat_session_id = find (\<lambda>s. cs_id s = p_cat_session_id) (cat_sessions db)"

definition question_exists :: "database \<Rightarrow> int \<Rightarrow> bool" where
  "question_exists db p_question_id = list_ex (\<lambda>q. q_id q = p_question_id) (questions db)"

subsection \<open>Scoring engine\<close>

text \<open>The cast \<^verbatim>\<open>id::text\<close> of an integer key: its decimal digits, with a sign when negative.\<close>

fun nat_text :: "nat \<Rightarrow> string" where
  "nat_text n = (if n < 10 then [''0123456789'' ! n]
                 else nat_text (n div 10) @ [''0123456789'' ! (n mod 10)])"

declare nat_text.simps [simp del]

definition int_text :: "int \<Rightarrow> string" where
  "int_text i = (if i < 0 then CHR ''-'' # nat_text (nat (- i)) else nat_text (nat i))"

text \<open>\<^verbatim>\<open>a.id::text = ANY(p_user_response)\<close>; its negation is \<^verbatim>\<open>a.id::text <> ALL(p_user_response)\<close>.\<close>

definition selected :: "string list \<Rightarrow> answer \<Rightarrow> bool" where
  "selected p_user_response a = (int_text (a_id a) \<in> set p_user_response)"

definition answers_of :: "database \<Rightarrow> int \<Rightarrow> answer list" where
  "answers_of db p_question_id = filter (\<lambda>a. a_question_id a = p_question_id) (answers db)"

text \<open>The summand of the partial-scoring \<^verbatim>\<open>CASE\<close> expression.\<close>

definition sata_term :: "string list \<Rightarrow> answer \<Rightarrow> real" where
  "sata_term p_user_response a =
     (if selected p_user_response a \<and> a_is_correct a then a_partial_credit a
      else if selected p_user_response a \<and> \<not> a_is_correct a then - a_penalty_value a
      else if \<not> selected p_user_response a \<and> a_is_correct a then - a_partial_credit a
      else 0)"

text \<open>
  The scoring block of \<^verbatim>\<open>submit_test_answer\<close> (from ``Get question info'' to the end of the
  \<^verbatim>\<open>IF\<close> on the question format): it yields \<^verbatim>\<open>(v_is_correct, v_score, v_max_score)\<close>.
  \<^verbatim>\<open>v_max_score\<close> is initialised to \<open>1\<close> and only the partial-scoring branch assigns it.
  In the first branch \<^verbatim>\<open>SELECT is_correct INTO v_is_correct\<close> leaves \<^verbatim>\<open>NULL\<close> when no answer
  of the question has the key \<^verbatim>\<open>p_user_response[1]\<close> (also when the array is empty).
\<close>

definition calculate_score :: "database \<Rightarrow> int \<Rightarrow> string list \<Rightarrow> bool option \<times> real \<times> real" where
  "calculate_score db p_question_id p_user_response =
     (let q = find (\<lambda>q. q_id q = p_question_id) (questions db);
          v_question_format = map_option q_question_format q;
          v_use_partial_scoring = map_option q_use_partial_scoring q
      in if v_question_format = Some ''Multiple Choice'' then
           (let v_is_correct =
                  (case p_user_response of
                     [] \<Rightarrow> None
                   | r # _ \<Rightarrow> map_option a_is_correct
                       (find (\<lambda>a. int_text (a_id a) = r) (answers_of db p_question_id)))
            in (v_is_correct, if v_is_correct = Some True then 1 else 0, 1))
         else if v_question_format = Some ''Select All That Apply'' \<and>
                 v_use_partial_scoring = Some True then
           (let v_score = max (sum_list (map (sata_term p_user_response)
                                 (answers_of db p_question_id))) 0;
                v_max_score = real (length (filter a_is_correct (answers_of db p_question_id)))
            in (Some (v_score = v_max_score), v_score, v_max_score))
         else
           (if \<not> list_ex (\<lambda>a. a_is_correct a \<and> \<not> selected p_user_response a)
                    (answers_of db p_question_id) \<and>
               \<not> list_ex (\<lambda>a. \<not> a_is_correct a \<and> selected p_user_response a)
                    (answers_of db p_question_id)
            then (Some True, 1, 1)
            else (Some False, 0, 1)))"

text \<open>What \<^verbatim>\<open>submit_test_answer\<close> returns as JSON.\<close>

record test_answer_result =
  result_id :: int
  is_correct :: "bool option"
  score :: real
  max_score :: real

text \<open>
  The update-or-insert of \<^verbatim>\<open>user_question_status\<close>. \<^verbatim>\<open>v_status\<close> is \<^verbatim>\<open>NULL\<close> exactly when the
  user has no row for the question, the column being \<^verbatim>\<open>NOT NULL\<close>; the inserted row must
  reference an existing question.
\<close>

definition status_of :: "bool option \<Rightarrow> string" where
  "status_of v_is_correct = (if v_is_correct = Some True then ''correct'' else ''incorrect'')"

definition upsert_question_status ::
    "uuid \<Rightarrow> database \<Rightarrow> int \<Rightarrow> bool option \<Rightarrow> error + database" where
  "upsert_question_status v_user_id db p_question_id v_is_correct =
     (if \<not> list_ex (\<lambda>u. uqs_user_id u = v_user_id \<and> uqs_question_id u = p_question_id)
              (user_question_status db)
      then if question_exists db p_question_id
           then Inr (db\<lparr>user_question_status := user_question_status db @
                  [\<lparr>uqs_user_id = v_user_id, uqs_question_id = p_question_id,
                    uqs_status = status_of v_is_correct, uqs_attempt_count = 1\<rparr>]\<rparr>)
           else Inl ForeignKeyViolation
      else Inr (db\<lparr>user_question_status :=
                  map (\<lambda>u. if uqs_user_id u = v_user_id \<and> uqs_question_id u = p_question_id
                            then u\<lparr>uqs_status := status_of v_is_correct,
                                   uqs_attempt_count := uqs_attempt_count u + 1\<rparr>
                            else u)
                      (user_question_status db)\<rparr>))"

text \<open>
  \<^verbatim>\<open>INSERT INTO test_results ... RETURNING id\<close>, under \<^verbatim>\<open>UNIQUE(test_id, question_id)\<close> and the
  reference to \<^verbatim>\<open>questions\<close>.
\<close>

definition insert_test_result :: "database \<Rightarrow> test_result \<Rightarrow> error + int \<times> database" where
  "insert_test_result db row =
     (if list_ex (\<lambda>r. tr_test_id r = tr_test_id row \<and> tr_question_id r = tr_question_id row)
           (test_results db)
      then Inl UniqueViolation
      else if \<not> question_exists db (tr_question_id row) then Inl ForeignKeyViolation
      else Inr (test_results_id_seq db,
                db\<lparr>test_results := test_results db @ [row\<lparr>tr_id := test_results_id_seq db\<rparr>],
                   test_results_id_seq := test_results_id_seq db + 1\<rparr>))"

text \<open>\<^verbatim>\<open>submit_test_answer\<close>.\<close>

definition submit_test_answer ::
    "uuid \<Rightarrow> database \<Rightarrow> int \<Rightarrow> int \<Rightarrow> string list \<Rightarrow> int \<Rightarrow> bool \<Rightarrow>
     error + test_answer_result \<times> database" where
  "submit_test_answer v_user_id db p_test_id p_question_id p_user_response
       p_time_spent_seconds p_is_flagged =
     (if \<not> list_ex (\<lambda>t. t_id t = p_test_id \<and> t_user_id t = v_user_id) (tests db)
      then Inl TestNotFound
      else case calculate_score db p_question_id p_user_response of
        (v_is_correct, v_score, v_max_score) \<Rightarrow>
          (case upsert_question_status v_user_id db p_question_id v_is_correct of
             Inl e \<Rightarrow> Inl e
           | Inr db1 \<Rightarrow>
               (case insert_test_result db1
                       \<lparr>tr_id = 0, tr_test_id = p_test_id, tr_user_id = v_user_id,
                        tr_question_id = p_question_id, tr_user_response = p_user_response,
                        tr_is_correct = v_is_correct, tr_score = v_score,
                        tr_max_score = v_max_score,
                        tr_time_spent_seconds = p_time_spent_seconds,
                        tr_is_flagged = p_is_flagged\<rparr> of
                  Inl e \<Rightarrow> Inl e
                | Inr (v_result_id, db2) \<Rightarrow>
                    Inr (\<lparr>result_id = v_result_id, is_correct = v_is_correct,
                          score = v_score, max_score = v_max_score\<rparr>, db2))))"

subsection \<open>Random order\<close>

text \<open>
  \<^verbatim>\<open>ORDER BY RANDOM()\<close>: each draw picks, by its remainder, the next row among those not yet
  placed. Every list of draws gives a permutation of the rows, and every permutation is
  given by some list of draws; when the draws run out the remaining rows keep their order.
\<close>

function order_by_random :: "nat list \<Rightarrow> 'a list \<Rightarrow> 'a list" where
  "order_by_random rs [] = []"
| "order_by_random [] (x # xs) = x # xs"
| "order_by_random (r # rs) (x # xs) =
     (let i = r mod length (x # xs)
      in (x # xs) ! i # order_by_random rs (take i (x # xs) @ drop (Suc i) (x # xs)))"
  by pat_completeness auto
termination
  by (relation "measure (\<lambda>(rs, xs). length xs)") auto

subsection \<open>Ability estimator over the tables\<close>

text \<open>
  The query of the inner loop: the selections of the session joined with the parameters of
  their questions. It does not filter on \<^verbatim>\<open>was_correct\<close>, so a selection not answered yet
  takes part with \<^verbatim>\<open>was_correct = NULL\<close>.
\<close>

definition mle_rows :: "database \<Rightarrow> int \<Rightarrow> mle_row list" where
  "mle_rows db p_cat_session_id =
     concat (map (\<lambda>cqs. map (\<lambda>qdp. \<lparr>was_correct = sel_was_correct cqs,
                                    discrimination = qdp_discrimination qdp,
                                    difficulty = qdp_difficulty qdp,
                                    guessing = qdp_guessing qdp\<rparr>)
                          (filter (\<lambda>qdp. sel_question_id cqs = Some (qdp_question_id qdp))
                             (question_difficulty_parameters db)))
                 (filter (\<lambda>cqs. sel_cat_session_id cqs = p_cat_session_id)
                    (cat_question_selections db)))"

text \<open>
  \<^verbatim>\<open>estimate_ability_mle\<close>: the loop starts from the session's \<^verbatim>\<open>current_ability\<close>. When the
  session does not exist, \<^verbatim>\<open>SELECT ... INTO v_ability\<close> sets \<^verbatim>\<open>NULL\<close>, the loop condition is
  \<^verbatim>\<open>NULL\<close> and the procedure returns \<^verbatim>\<open>NULL\<close>. \<open>mle_iterations\<close> is the final \<^verbatim>\<open>v_iter\<close>.
\<close>

definition estimate_ability_mle :: "database \<Rightarrow> int \<Rightarrow> real option" where
  "estimate_ability_mle db p_cat_session_id =
     map_option (\<lambda>s. fst (mle_from (mle_rows db p_cat_session_id) (cs_current_ability s)))
       (find_session db p_cat_session_id)"


subsection \<open>Next question\<close>

text \<open>The stopping rule of \<^verbatim>\<open>get_next_cat_question\<close>: \<^verbatim>\<open>v_test_complete\<close> and the decision.\<close>

definition test_complete :: "cat_session \<Rightarrow> bool" where
  "test_complete s =
     (if cs_questions_answered s \<ge> cs_max_questions s then True
      else if cs_questions_answered s \<ge> cs_min_questions s
           then \<bar>cs_current_ability s - cs_passing_standard s\<bar> > 1
           else False)"

definition pass_fail_decision :: "cat_session \<Rightarrow> string" where
  "pass_fail_decision s =
     (if cs_current_ability s \<ge> cs_passing_standard s then ''passed'' else ''failed'')"

text \<open>
  \<^verbatim>\<open>LEFT JOIN cat_question_selections ... WHERE cqs.id IS NULL\<close>: the question has no selection
  in this session.
\<close>

definition not_yet_selected :: "database \<Rightarrow> int \<Rightarrow> int \<Rightarrow> bool" where
  "not_yet_selected db p_cat_session_id qid =
     (\<not> list_ex (\<lambda>cqs. sel_question_id cqs = Some qid \<and>
                        sel_cat_session_id cqs = p_cat_session_id)
           (cat_question_selections db))"

definition in_pool :: "database \<Rightarrow> int \<Rightarrow> int \<Rightarrow> bool" where
  "in_pool db v_test_id qid =
     list_ex (\<lambda>tq. tq_question_id tq = qid \<and> tq_test_id tq = v_test_id) (test_questions db)"

text \<open>The rows of the two queries before \<^verbatim>\<open>ORDER BY RANDOM() LIMIT n\<close>.\<close>

definition candidates ::
    "database \<Rightarrow> int \<Rightarrow> int \<Rightarrow> (question \<times> question_difficulty_parameter) list" where
  "candidates db p_cat_session_id v_test_id =
     concat (map (\<lambda>q.
       concat (map (\<lambda>qdp.
         map (\<lambda>tq. (q, qdp))
           (filter (\<lambda>tq. tq_question_id tq = q_id q \<and> tq_test_id tq = v_test_id)
              (test_questions db)))
         (filter (\<lambda>qdp. qdp_question_id qdp = q_id q) (question_difficulty_parameters db))))
       (filter (\<lambda>q. not_yet_selected db p_cat_session_id (q_id q)) (questions db)))"

definition fallback_candidates :: "database \<Rightarrow> int \<Rightarrow> int \<Rightarrow> int list" where
  "fallback_candidates db p_cat_session_id v_test_id =
     concat (map (\<lambda>q.
       map (\<lambda>tq. q_id q)
         (filter (\<lambda>tq. tq_question_id tq = q_id q \<and> tq_test_id tq = v_test_id)
            (test_questions db)))
       (filter (\<lambda>q. not_yet_selected db p_cat_session_id (q_id q)) (questions db)))"

text \<open>The information of a candidate row at an ability: the call of \<^verbatim>\<open>calculate_information\<close>.\<close>

definition candidate_information ::
    "real \<Rightarrow> question \<times> question_difficulty_parameter \<Rightarrow> real" where
  "candidate_information v_ability c =
     calculate_information v_ability (qdp_discrimination (snd c)) (qdp_difficulty (snd c))
       (qdp_guessing (snd c))"

text \<open>
  The loop over the shortlist; the accumulator is \<^verbatim>\<open>(v_max_info, v_next_question_id)\<close>,
  initially \<open>(0, NULL)\<close>.
\<close>

fun max_information ::
    "real \<Rightarrow> (question \<times> question_difficulty_parameter) list \<Rightarrow> real \<times> int option \<Rightarrow>
     real \<times> int option" where
  "max_information v_ability [] acc = acc"
| "max_information v_ability (c # cs) acc =
     (let v_info = candidate_information v_ability c
      in if v_info > fst acc then max_information v_ability cs (v_info, Some (q_id (fst c)))
         else max_information v_ability cs acc)"

text \<open>What \<^verbatim>\<open>get_next_cat_question\<close> returns as JSON.\<close>

datatype next_result =
    Completed string real int
  | NextQuestion "int option" "int list" int

text \<open>
  The question details returned at the end: the query joins \<^verbatim>\<open>questions\<close> with \<^verbatim>\<open>answers\<close>,
  so it has a row only for an existing question with at least one answer.
\<close>

definition question_details :: "database \<Rightarrow> int option \<Rightarrow> int option \<times> int list" where
  "question_details db v_next_question_id =
     (case v_next_question_id of
        None \<Rightarrow> (None, [])
      | Some qid \<Rightarrow>
          if question_exists db qid \<and> answers_of db qid \<noteq> []
          then (Some qid, map a_id (answers_of db qid))
          else (None, []))"

text \<open>
  The item selector inside \<^verbatim>\<open>get_next_cat_question\<close>: the shortlist of at most 50 candidates
  in random order, the loop over it, and the random fallback when the loop has chosen no
  question. It yields \<^verbatim>\<open>(v_max_info, v_next_question_id)\<close>. \<open>rnd1\<close> and \<open>rnd2\<close> are the
  draws of the two \<^verbatim>\<open>RANDOM()\<close> orders.
\<close>

definition shortlist ::
    "nat list \<Rightarrow> database \<Rightarrow> int \<Rightarrow> cat_session \<Rightarrow>
     (question \<times> question_difficulty_parameter) list" where
  "shortlist rnd1 db p_cat_session_id s =
     take 50 (order_by_random rnd1 (candidates db p_cat_session_id (cs_test_id s)))"

definition item_selector ::
    "nat list \<Rightarrow> nat list \<Rightarrow> database \<Rightarrow> int \<Rightarrow> cat_session \<Rightarrow> real \<times> int option" where
  "item_selector rnd1 rnd2 db p_cat_session_id s =
     (let best = max_information (cs_current_ability s)
                   (shortlist rnd1 db p_cat_session_id s) (0, None)
      in (fst best,
          case snd best of
            Some qid \<Rightarrow> Some qid
          | None \<Rightarrow>
              (case order_by_random rnd2
                      (fallback_candidates db p_cat_session_id (cs_test_id s)) of
                 [] \<Rightarrow> None
               | qid # _ \<Rightarrow> Some qid)))"

text \<open>
  The \<^verbatim>\<open>INSERT\<close> of the selection and the \<^verbatim>\<open>UPDATE\<close> that counts the question on the session.
\<close>

definition new_selection ::
    "database \<Rightarrow> int \<Rightarrow> cat_session \<Rightarrow> real \<times> int option \<Rightarrow> cat_question_selection" where
  "new_selection db p_cat_session_id s chosen =
     \<lparr>sel_id = cat_question_selections_id_seq db,
      sel_cat_session_id = p_cat_session_id,
      sel_question_id = snd chosen,
      sel_position = cs_questions_answered s + 1,
      sel_ability_estimate_before = Some (cs_current_ability s),
      sel_ability_estimate_after = None,
      sel_information_value = Some (fst chosen),
      sel_was_correct = None\<rparr>"

definition record_selection ::
    "database \<Rightarrow> int \<Rightarrow> cat_session \<Rightarrow> real \<times> int option \<Rightarrow> database" where
  "record_selection db p_cat_session_id s chosen =
     db\<lparr>cat_question_selections :=
          cat_question_selections db @ [new_selection db p_cat_session_id s chosen],
        cat_question_selections_id_seq := cat_question_selections_id_seq db + 1,
        cat_sessions :=
          map (\<lambda>c. if cs_id c = p_cat_session_id
                    then c\<lparr>cs_questions_answered := cs_questions_answered c + 1\<rparr> else c)
            (cat_sessions db)\<rparr>"

text \<open>
  The two \<^verbatim>\<open>UPDATE\<close>s of a completed test: the decision on the session, and \<^verbatim>\<open>'completed'\<close> on
  the test.
\<close>

definition complete_test :: "database \<Rightarrow> int \<Rightarrow> cat_session \<Rightarrow> database" where
  "complete_test db p_cat_session_id s =
     db\<lparr>cat_sessions :=
          map (\<lambda>c. if cs_id c = p_cat_session_id
                    then c\<lparr>cs_status := pass_fail_decision s\<rparr> else c)
            (cat_sessions db),
        tests :=
          map (\<lambda>t. if t_id t = cs_test_id s then t\<lparr>t_status := ''completed''\<rparr> else t)
            (tests db)\<rparr>"

text \<open>
  \<^verbatim>\<open>get_next_cat_question\<close>. A session that does not exist leaves every variable \<^verbatim>\<open>NULL\<close>, no
  check fires, and the \<^verbatim>\<open>INSERT\<close> of the selection violates its reference to
  \<^verbatim>\<open>cat_sessions\<close>.
\<close>

definition get_next_cat_question ::
    "nat list \<Rightarrow> nat list \<Rightarrow> uuid \<Rightarrow> database \<Rightarrow> int \<Rightarrow> error + next_result \<times> database" where
  "get_next_cat_question rnd1 rnd2 auth_uid db p_cat_session_id =
     (case find_session db p_cat_session_id of
        None \<Rightarrow> Inl ForeignKeyViolation
      | Some s \<Rightarrow>
          if auth_uid \<noteq> cs_user_id s then Inl NotAuthorized
          else if cs_status s \<noteq> ''in_progress'' then
            Inr (Completed (cs_status s) (cs_current_ability s) (cs_questions_answered s), db)
          else if test_complete s then
            Inr (Completed (pass_fail_decision s) (cs_current_ability s)
                   (cs_questions_answered s),
                 complete_test db p_cat_session_id s)
          else
            (let chosen = item_selector rnd1 rnd2 db p_cat_session_id s;
                 db1 = record_selection db p_cat_session_id s chosen;
                 details = question_details db1 (snd chosen)
             in Inr (NextQuestion (fst details) (snd details) (cs_questions_answered s + 1),
                     db1)))"

subsection \<open>Submitting an answer\<close>

text \<open>What \<^verbatim>\<open>submit_cat_answer\<close> returns as JSON.\<close>

record cat_answer_result =
  car_is_correct :: "bool option"
  car_score :: real
  car_ability :: "real option"
  car_questions_answered :: "int option"

text \<open>
  \<^verbatim>\<open>UPDATE cat_question_selections SET was_correct = ... RETURNING id INTO v_selection_id\<close>:
  PL/pgSQL raises when the statement returns more than one row, and leaves \<^verbatim>\<open>NULL\<close> when it
  returns none.
\<close>

definition record_was_correct ::
    "database \<Rightarrow> int \<Rightarrow> int \<Rightarrow> bool option \<Rightarrow> error + int option \<times> database" where
  "record_was_correct db p_cat_session_id p_question_id v_is_correct =
     (let hit = (\<lambda>cqs. sel_cat_session_id cqs = p_cat_session_id \<and>
                        sel_question_id cqs = Some p_question_id);
          db1 = db\<lparr>cat_question_selections :=
                     map (\<lambda>cqs. if hit cqs then cqs\<lparr>sel_was_correct := v_is_correct\<rparr> else cqs)
                       (cat_question_selections db)\<rparr>
      in case filter hit (cat_question_selections db) of
           [] \<Rightarrow> Inr (None, db1)
         | [cqs] \<Rightarrow> Inr (Some (sel_id cqs), db1)
         | _ \<Rightarrow> Inl TooManyRows)"

text \<open>
  \<^verbatim>\<open>submit_cat_answer\<close>. For a session that does not exist \<^verbatim>\<open>v_test_id\<close> is \<^verbatim>\<open>NULL\<close> and
  \<^verbatim>\<open>submit_test_answer\<close> raises. The estimate is \<^verbatim>\<open>NULL\<close> only when no session has the key,
  and then the last \<^verbatim>\<open>UPDATE\<close> has no row to change. The procedure does not look at the
  position, the status or \<^verbatim>\<open>was_correct\<close> of the selection it updates, and it does not
  write \<^verbatim>\<open>questions_answered\<close>.
\<close>

definition submit_cat_answer ::
    "uuid \<Rightarrow> database \<Rightarrow> int \<Rightarrow> int \<Rightarrow> string list \<Rightarrow> int \<Rightarrow>
     error + cat_answer_result \<times> database" where
  "submit_cat_answer auth_uid db p_cat_session_id p_question_id p_user_response
       p_time_spent_seconds =
     (case find_session db p_cat_session_id of
        None \<Rightarrow> Inl TestNotFound
      | Some s \<Rightarrow>
          if auth_uid \<noteq> cs_user_id s then Inl NotAuthorized
          else
            (case submit_test_answer auth_uid db (cs_test_id s) p_question_id p_user_response
                    p_time_spent_seconds False of
               Inl e \<Rightarrow> Inl e
             | Inr (v_result, db1) \<Rightarrow>
                 (case record_was_correct db1 p_cat_session_id p_question_id
                         (is_correct v_result) of
                    Inl e \<Rightarrow> Inl e
                  | Inr (v_selection_id, db2) \<Rightarrow>
                      (let v_ability = estimate_ability_mle db2 p_cat_session_id;
                           db3 = db2\<lparr>cat_question_selections :=
                                   map (\<lambda>cqs. if Some (sel_id cqs) = v_selection_id
                                               then cqs\<lparr>sel_ability_estimate_after := v_ability\<rparr>
                                               else cqs)
                                     (cat_question_selections db2)\<rparr>;
                           db4 = db3\<lparr>cat_sessions :=
                                   map (\<lambda>c. if cs_id c = p_cat_session_id
                                             then c\<lparr>cs_current_ability :=
                                                      (case v_ability of
                                                         Some v \<Rightarrow> v
                                                       | None \<Rightarrow> cs_current_ability c)\<rparr>
                                             else c)
                                     (cat_sessions db3)\<rparr>
                       in Inr (\<lparr>car_is_correct = is_correct v_result,
                                car_score = score v_result,
                                car_ability = v_ability,
                                car_questions_answered =
                                  map_option cs_questions_answered
                                    (find_session db4 p_cat_session_id)\<rparr>,
                               db4)))))"



subsection \<open>Creating a CAT test\<close>

text \<open>
  The query that fills the pool: questions that have parameters, left-joined with the
  user's status rows. With a non-empty \<^verbatim>\<open>p_topics\<close> it keeps the questions of those topics
  that the user has not answered correctly; \<^verbatim>\<open>array_length\<close> of an empty array is \<^verbatim>\<open>NULL\<close>, so
  an empty array selects from all questions, like \<^verbatim>\<open>NULL\<close>.
\<close>

definition eligible_rows ::
    "uuid \<Rightarrow> database \<Rightarrow> string list option \<Rightarrow>
     (question \<times> user_question_status_row option) list" where
  "eligible_rows v_user_id db p_topics =
     (let joined =
            concat (map (\<lambda>q.
              concat (map (\<lambda>qdp.
                (case filter (\<lambda>u. uqs_question_id u = q_id q \<and> uqs_user_id u = v_user_id)
                        (user_question_status db) of
                   [] \<Rightarrow> [(q, None)]
                 | us \<Rightarrow> map (\<lambda>u. (q, Some u)) us))
                (filter (\<lambda>qdp. qdp_question_id qdp = q_id q)
                   (question_difficulty_parameters db))))
              (questions db))
      in case p_topics of
           Some (t # ts) \<Rightarrow>
             filter (\<lambda>r. q_topic (fst r) \<in> set (t # ts) \<and>
                          (case snd r of None \<Rightarrow> True | Some u \<Rightarrow> uqs_status u \<noteq> ''correct''))
               joined
         | _ \<Rightarrow> joined)"

text \<open>The first sort key: unseen questions, then incorrectly answered ones, then the rest.\<close>

definition status_tier :: "user_question_status_row option \<Rightarrow> nat" where
  "status_tier u =
     (case u of None \<Rightarrow> 1 | Some r \<Rightarrow> if uqs_status r = ''incorrect'' then 2 else 3)"

text \<open>\<^verbatim>\<open>v_question_ids\<close>: at most \<^verbatim>\<open>v_question_pool = 300\<close> keys, by tier and at random within a tier.\<close>

definition question_pool :: "nat list \<Rightarrow> uuid \<Rightarrow> database \<Rightarrow> string list option \<Rightarrow> int list" where
  "question_pool rnd v_user_id db p_topics =
     map (\<lambda>r. q_id (fst r))
       (take 300 (sort_key (\<lambda>r. status_tier (snd r))
                    (order_by_random rnd (eligible_rows v_user_id db p_topics))))"

text \<open>What \<^verbatim>\<open>create_cat_test\<close> returns: test, session and question count, or the failure.\<close>

datatype create_result =
    Created int int int
  | NoQuestionsAvailable

text \<open>
  The statements of \<^verbatim>\<open>create_cat_test\<close> that write: the \<^verbatim>\<open>INSERT\<close> of the test, the \<^verbatim>\<open>INSERT\<close> of
  the pool into \<^verbatim>\<open>test_questions\<close> with \<^verbatim>\<open>row_number()\<close> as the order, the \<^verbatim>\<open>UPDATE\<close> of the
  question count, and the \<^verbatim>\<open>INSERT\<close> of the session with
  \<^verbatim>\<open>LEAST(p_max_questions, v_question_count)\<close>. The keys of new rows come from the sequences.
\<close>

definition insert_test :: "database \<Rightarrow> uuid \<Rightarrow> string \<Rightarrow> string list option \<Rightarrow> database" where
  "insert_test db v_user_id p_title p_topics =
     db\<lparr>tests := tests db @
          [\<lparr>t_id = tests_id_seq db, t_user_id = v_user_id, t_title = p_title,
            t_mode = ''CAT'', t_question_count = None, t_topics = p_topics,
            t_status = ''in_progress''\<rparr>],
        tests_id_seq := tests_id_seq db + 1\<rparr>"

definition link_questions :: "database \<Rightarrow> int \<Rightarrow> int list \<Rightarrow> database" where
  "link_questions db v_test_id v_question_ids =
     db\<lparr>test_questions := test_questions db @
          map (\<lambda>qn. \<lparr>tq_test_id = v_test_id, tq_question_id = fst qn,
                     tq_question_order = snd qn\<rparr>)
            (zip v_question_ids [1 .. int (length v_question_ids)])\<rparr>"

definition set_question_count :: "database \<Rightarrow> int \<Rightarrow> int \<Rightarrow> database" where
  "set_question_count db v_test_id v_question_count =
     db\<lparr>tests :=
          map (\<lambda>t. if t_id t = v_test_id
                    then t\<lparr>t_question_count := Some v_question_count\<rparr> else t)
            (tests db)\<rparr>"

definition insert_session ::
    "database \<Rightarrow> int \<Rightarrow> uuid \<Rightarrow> real \<Rightarrow> int \<Rightarrow> int \<Rightarrow> int \<Rightarrow> database" where
  "insert_session db v_test_id v_user_id p_passing_standard p_min_questions p_max_questions
       v_question_count =
     db\<lparr>cat_sessions := cat_sessions db @
          [\<lparr>cs_id = cat_sessions_id_seq db, cs_test_id = v_test_id, cs_user_id = v_user_id,
            cs_initial_ability = 0, cs_current_ability = 0,
            cs_passing_standard = p_passing_standard, cs_min_questions = p_min_questions,
            cs_max_questions = min p_max_questions v_question_count,
            cs_questions_answered = 0, cs_status = ''in_progress''\<rparr>],
        cat_sessions_id_seq := cat_sessions_id_seq db + 1\<rparr>"

text \<open>
  \<^verbatim>\<open>create_cat_test\<close>. Without a question it deletes the test again and reports the failure;
  \<^verbatim>\<open>test_questions\<close> has \<^verbatim>\<open>UNIQUE(test_id, question_id)\<close>.
\<close>

definition create_cat_test ::
    "nat list \<Rightarrow> uuid \<Rightarrow> database \<Rightarrow> string \<Rightarrow> string list option \<Rightarrow> int \<Rightarrow> int \<Rightarrow> real \<Rightarrow>
     error + create_result \<times> database" where
  "create_cat_test rnd v_user_id db p_title p_topics p_min_questions p_max_questions
       p_passing_standard =
     (let v_test_id = tests_id_seq db;
          db1 = insert_test db v_user_id p_title p_topics;
          v_question_ids = question_pool rnd v_user_id db1 p_topics;
          v_question_count = int (length v_question_ids)
      in if v_question_count = 0 then
           Inr (NoQuestionsAvailable,
                db1\<lparr>tests := filter (\<lambda>t. t_id t \<noteq> v_test_id) (tests db1)\<rparr>)
         else if \<not> distinct v_question_ids \<or>
                 list_ex (\<lambda>tq. tq_test_id tq = v_test_id \<and> tq_question_id tq \<in> set v_question_ids)
                   (test_questions db1)
         then Inl UniqueViolation
         else
           (let db3 = set_question_count (link_questions db1 v_test_id v_question_ids)
                        v_test_id v_question_count
            in Inr (Created v_test_id (cat_sessions_id_seq db3) v_question_count,
                    insert_session db3 v_test_id v_user_id p_passing_standard p_min_questions
                      p_max_questions v_question_count)))"

subsection \<open>A small database\<close>

text \<open>
  One user, one CAT test over three questions, and a session that has been served its first
  question: question 1 is a multiple-choice item with answers 1 (correct) and 2, question 2
  a select-all item with partial scoring and answers 3, 4 (correct, credit \<open>0.5\<close> each) and 5,
  question 3 a select-all item without partial scoring with answers 6 (correct) and 7.
\<close>

definition example_session :: cat_session where
  "example_session =
     \<lparr>cs_id = 1, cs_test_id = 1, cs_user_id = ''u1'', cs_initial_ability = 0,
      cs_current_ability = 0, cs_passing_standard = 0, cs_min_questions = 2,
      cs_max_questions = 3, cs_questions_answered = 1, cs_status = ''in_progress''\<rparr>"

definition example_selection :: cat_question_selection where
  "example_selection =
     \<lparr>sel_id = 1, sel_cat_session_id = 1, sel_question_id = Some 1, sel_position = 1,
      sel_ability_estimate_before = Some 0, sel_ability_estimate_after = None,
      sel_information_value = Some (1 / 4), sel_was_correct = None\<rparr>"

definition example_db :: database where
  "example_db =
     \<lparr>questions =
        [\<lparr>q_id = 1, q_topic = ''Cardiac'', q_question_format = ''Multiple Choice'',
          q_use_partial_scoring = False\<rparr>,
         \<lparr>q_id = 2, q_topic = ''Cardiac'', q_question_format = ''Select All That Apply'',
          q_use_partial_scoring = True\<rparr>,
         \<lparr>q_id = 3, q_topic = ''Renal'', q_question_format = ''Select All That Apply'',
          q_use_partial_scoring = False\<rparr>],
      answers =
        [\<lparr>a_id = 1, a_question_id = 1, a_is_correct = True, a_partial_credit = 0,
          a_penalty_value = 0\<rparr>,
         \<lparr>a_id = 2, a_question_id = 1, a_is_correct = False, a_partial_credit = 0,
          a_penalty_value = 0\<rparr>,
         \<lparr>a_id = 3, a_question_id = 2, a_is_correct = True, a_partial_credit = 1 / 2,
          a_penalty_value = 0\<rparr>,
         \<lparr>a_id = 4, a_question_id = 2, a_is_correct = True, a_partial_credit = 1 / 2,
          a_penalty_value = 0\<rparr>,
         \<lparr>a_id = 5, a_question_id = 2, a_is_correct = False, a_partial_credit = 0,
          a_penalty_value = 1 / 2\<rparr>,
         \<lparr>a_id = 6, a_question_id = 3, a_is_correct = True, a_partial_credit = 0,
          a_penalty_value = 0\<rparr>,
         \<lparr>a_id = 7, a_question_id = 3, a_is_correct = False, a_partial_credit = 0,
          a_penalty_value = 0\<rparr>],
      user_question_status = [],
      tests =
        [\<lparr>t_id = 1, t_user_id = ''u1'', t_title = ''NCLEX CAT Simulation'', t_mode = ''CAT'',
          t_question_count = Some 3, t_topics = None, t_status = ''in_progress''\<rparr>],
      test_questions =
        [\<lparr>tq_test_id = 1, tq_question_id = 1, tq_question_order = 1\<rparr>,
         \<lparr>tq_test_id = 1, tq_question_id = 2, tq_question_order = 2\<rparr>,
         \<lparr>tq_test_id = 1, tq_question_id = 3, tq_question_order = 3\<rparr>],
      test_results = [],
      question_difficulty_parameters =
        [\<lparr>qdp_question_id = 1, qdp_discrimination = 1, qdp_difficulty = 0,
          qdp_guessing = 0\<rparr>,
         \<lparr>qdp_question_id = 2, qdp_discrimination = 1, qdp_difficulty = 0,
          qdp_guessing = 0\<rparr>,
         \<lparr>qdp_question_id = 3, qdp_discrimination = 2, qdp_difficulty = 0,
          qdp_guessing = 0\<rparr>],
      cat_sessions = [example_session],
      cat_question_selections = [example_selection],
      tests_id_seq = 2,
      test_results_id_seq = 1,
      cat_sessions_id_seq = 2,
      cat_question_selections_id_seq = 2\<rparr>"

text \<open>The same database with the session in other states.\<close>

definition with_session :: "cat_session \<Rightarrow> database" where
  "with_session s = example_db\<lparr>cat_sessions := [s]\<rparr>"


section \<open>Properties\<close>

subsection \<open>Probability of a correct response\<close>

lemma clamp_mono:
  "(x::real) \<le> y \<Longrightarrow>
     (if x > 35 then 35 else if x < - 35 then - 35 else x) \<le>
     (if y > 35 then 35 else if y < - 35 then - 35 else y)"
  by auto

lemma logistic_mono: "(x::real) \<le> y \<Longrightarrow> 1 / (1 + exp (- x)) \<le> 1 / (1 + exp (- y))"
  by (intro divide_left_mono) (auto simp: add_pos_pos intro!: mult_pos_pos)

lemma logistic_bounds: "0 < 1 / (1 + exp (- (x::real)))" "1 / (1 + exp (- (x::real))) < 1"
  by (auto simp: add_pos_pos)

lemma calculate_probability_clamped:
  "calculate_probability t a b c =
     c + (1 - c) / (1 + exp (- max (- 35) (min 35 (a * (t - b)))))"
  by (simp add: calculate_probability_def Let_def max_def min_def)

lemma calculate_probability_bounds:
  assumes "0 \<le> c" "c < 1"
  shows "c < calculate_probability t a b c" "calculate_probability t a b c < 1"
proof -
  define s where "s = 1 / (1 + exp (- max (- 35) (min 35 (a * (t - b)))))"
  have p: "calculate_probability t a b c = c + (1 - c) * s"
    by (simp add: calculate_probability_clamped s_def)
  have s: "0 < s" "s < 1"
    unfolding s_def by (rule logistic_bounds)+
  have "0 < (1 - c) * s"
    using assms s by simp
  then show "c < calculate_probability t a b c"
    using p by simp
  have "(1 - c) * s < (1 - c) * 1"
    using assms s by (intro mult_strict_left_mono) auto
  then show "calculate_probability t a b c < 1"
    using p by simp
qed

lemma calculate_probability_mono:
  assumes "0 \<le> a" "c \<le> 1" "t \<le> t'"
  shows "calculate_probability t a b c \<le> calculate_probability t' a b c"
proof -
  let ?l = "\<lambda>x. if a * (x - b) > 35 then 35 else if a * (x - b) < - 35 then - 35 else a * (x - b)"
  have "a * (t - b) \<le> a * (t' - b)"
    using assms by (intro mult_left_mono) auto
  then have "1 / (1 + exp (- ?l t)) \<le> 1 / (1 + exp (- ?l t'))"
    by (intro logistic_mono clamp_mono)
  then have "(1 - c) * (1 / (1 + exp (- ?l t))) \<le> (1 - c) * (1 / (1 + exp (- ?l t')))"
    using assms by (intro mult_left_mono) auto
  then show ?thesis
    by (simp add: calculate_probability_def Let_def)
qed

text \<open>
  Beyond the clamp the probability is constant, so the monotonicity is not strict:
  with \<open>a = 1\<close> and \<open>b = 0\<close> the abilities \<open>40\<close> and \<open>50\<close> have the same probability.
\<close>

lemma calculate_probability_saturates:
  "calculate_probability 40 1 0 c = calculate_probability 50 1 0 c"
  by (simp add: calculate_probability_def)

text \<open>
  Claim C9. For every ability, every discrimination \<open>a > 0\<close>, every difficulty and every
  guessing parameter \<open>0 \<le> c < 1\<close>, the probability of a correct response lies in \<open>[0, 1]\<close>
  and does not decrease when the ability grows; it is computed from the logit
  \<open>a * (\<theta> - b)\<close> clamped to \<open>[-35, 35]\<close>.
\<close>

theorem calculate_probability_range_and_monotone:
  assumes "0 < a" and "0 \<le> c" and "c < 1"
  shows "0 \<le> calculate_probability t a b c \<and> calculate_probability t a b c \<le> 1
       \<and> (\<forall>t'. t \<le> t' \<longrightarrow> calculate_probability t a b c \<le> calculate_probability t' a b c)
       \<and> calculate_probability t a b c =
           c + (1 - c) / (1 + exp (- max (- 35) (min 35 (a * (t - b)))))"
proof -
  have "c < calculate_probability t a b c" "calculate_probability t a b c < 1"
    using assms by (auto intro: calculate_probability_bounds)
  moreover have "\<forall>t'. t \<le> t' \<longrightarrow> calculate_probability t a b c \<le> calculate_probability t' a b c"
    using assms by (auto intro: calculate_probability_mono)
  ultimately show ?thesis
    using assms calculate_probability_clamped[of t a b c] by auto
qed

theorem calculate_probability_range_and_monotone_witness:
  "(0::real) < 1 \<and> (0::real) \<le> 1 / 4 \<and> (1 / 4 ::real) < 1
   \<and> 0 \<le> calculate_probability 0 1 0 (1 / 4) \<and> calculate_probability 0 1 0 (1 / 4) \<le> 1
   \<and> (0::real) \<le> 2
   \<and> calculate_probability 0 1 0 (1 / 4) \<le> calculate_probability 2 1 0 (1 / 4)
   \<and> calculate_probability 0 1 0 (1 / 4) = 5 / 8"
proof -
  have h: "(0::real) < 1" "(0::real) \<le> 1 / 4" "(1 / 4 ::real) < 1"
    by simp_all
  note t = calculate_probability_range_and_monotone[OF h, of 0 0]
  from t have "calculate_probability 0 1 0 (1 / 4) \<le> calculate_probability 2 1 0 (1 / 4)"
    by simp
  moreover from t have "calculate_probability 0 1 0 (1 / 4) = 5 / 8"
    by simp
  ultimately show ?thesis
    using t by simp
qed

subsection \<open>Ability estimator\<close>









subsection \<open>Scoring engine\<close>


text \<open>
  The first branch (\<^verbatim>\<open>'Multiple Choice'\<close>) looks at the first element of the response only.
  When that element is the key of an answer of the question, the score is \<open>1\<close> for a correct
  answer and \<open>0\<close> otherwise, and \<^verbatim>\<open>is_correct\<close> is the comparison of score and maximum.
\<close>

lemma multiple_choice_matched:
  assumes "find (\<lambda>q. q_id q = qid) (questions db) = Some q"
    and "q_question_format q = ''Multiple Choice''"
    and "find (\<lambda>a. int_text (a_id a) = r) (answers_of db qid) = Some a"
  shows "calculate_score db qid (r # rest) =
           (Some (a_is_correct a), if a_is_correct a then 1 else 0, 1)"
  using assms by (simp add: calculate_score_def Let_def)

text \<open>Otherwise \<^verbatim>\<open>SELECT ... INTO\<close> finds no row and \<^verbatim>\<open>is_correct\<close> stays \<^verbatim>\<open>NULL\<close>.\<close>

lemma multiple_choice_unmatched:
  assumes "find (\<lambda>q. q_id q = qid) (questions db) = Some q"
    and "q_question_format q = ''Multiple Choice''"
    and "resp = [] \<or> find (\<lambda>a. int_text (a_id a) = hd resp) (answers_of db qid) = None"
  shows "calculate_score db qid resp = (None, 0, 1)"
  using assms by (cases resp) (auto simp: calculate_score_def Let_def)

text \<open>
  The last branch (any other format, and select-all without partial scoring) gives the
  score \<open>1\<close> exactly when the selected answers of the question are its correct answers.
\<close>

lemma other_format_score:
  assumes "map_option q_question_format (find (\<lambda>q. q_id q = qid) (questions db)) \<noteq>
             Some ''Multiple Choice''"
    and "\<not> (map_option q_question_format (find (\<lambda>q. q_id q = qid) (questions db)) =
               Some ''Select All That Apply'' \<and>
             map_option q_use_partial_scoring (find (\<lambda>q. q_id q = qid) (questions db)) =
               Some True)"
  shows "calculate_score db qid resp =
           (if \<forall>a \<in> set (answers_of db qid). selected resp a \<longleftrightarrow> a_is_correct a
            then (Some True, 1, 1) else (Some False, 0, 1))"
proof -
  have "(\<not> list_ex (\<lambda>a. a_is_correct a \<and> \<not> selected resp a) (answers_of db qid) \<and>
         \<not> list_ex (\<lambda>a. \<not> a_is_correct a \<and> selected resp a) (answers_of db qid))
        = (\<forall>a \<in> set (answers_of db qid). selected resp a \<longleftrightarrow> a_is_correct a)"
    by (auto simp: list_ex_iff)
  with assms show ?thesis
    by (simp only: calculate_score_def Let_def if_False)
qed

text \<open>
  With one correct answer, distinct keys and a response of one element, that is: the score
  is \<open>1\<close> exactly when the element is the key of the correct answer.
\<close>

lemma other_format_single_best_answer:
  assumes "map_option q_question_format (find (\<lambda>q. q_id q = qid) (questions db)) \<noteq>
             Some ''Multiple Choice''"
    and "\<not> (map_option q_question_format (find (\<lambda>q. q_id q = qid) (questions db)) =
               Some ''Select All That Apply'' \<and>
             map_option q_use_partial_scoring (find (\<lambda>q. q_id q = qid) (questions db)) =
               Some True)"
    and "filter a_is_correct (answers_of db qid) = [c]"
    and "inj_on (\<lambda>a. int_text (a_id a)) (set (answers_of db qid))"
  shows "calculate_score db qid [r] =
           (if r = int_text (a_id c) then (Some True, 1, 1) else (Some False, 0, 1))"
proof -
  let ?A = "answers_of db qid"
  have "c \<in> set (filter a_is_correct ?A)"
    using assms(3) by simp
  then have c: "c \<in> set ?A" "a_is_correct c"
    by simp_all
  have only: "a = c" if "a \<in> set ?A" "a_is_correct a" for a
  proof -
    from that have "a \<in> set (filter a_is_correct ?A)"
      by simp
    with assms(3) show ?thesis
      by simp
  qed
  have "(\<forall>a \<in> set ?A. selected [r] a \<longleftrightarrow> a_is_correct a) \<longleftrightarrow> r = int_text (a_id c)"
  proof
    assume "\<forall>a \<in> set ?A. selected [r] a \<longleftrightarrow> a_is_correct a"
    with c show "r = int_text (a_id c)"
      by (auto simp: selected_def)
  next
    assume r: "r = int_text (a_id c)"
    show "\<forall>a \<in> set ?A. selected [r] a \<longleftrightarrow> a_is_correct a"
    proof
      fix a
      assume a: "a \<in> set ?A"
      show "selected [r] a \<longleftrightarrow> a_is_correct a"
      proof
        assume "selected [r] a"
        then have "int_text (a_id a) = int_text (a_id c)"
          using r by (simp add: selected_def)
        with assms(4) a c(1) have "a = c"
          by (auto dest: inj_onD)
        with c(2) show "a_is_correct a"
          by simp
      next
        assume "a_is_correct a"
        with a have "a = c"
          by (rule only)
        with r show "selected [r] a"
          by (simp add: selected_def)
      qed
    qed
  qed
  with other_format_score[OF assms(1,2), of "[r]"] show ?thesis
    by simp
qed












subsection \<open>Sessions under the operations\<close>

lemma find_session_id: "find_session db sid = Some s \<Longrightarrow> cs_id s = sid"
  by (auto simp: find_session_def find_Some_iff)

lemma find_session_mem: "find_session db sid = Some s \<Longrightarrow> s \<in> set (cat_sessions db)"
  by (auto simp: find_session_def find_Some_iff)

lemma find_map_session:
  assumes "\<And>c. cs_id (f c) = cs_id c"
  shows "find (\<lambda>s. cs_id s = k) (map (\<lambda>c. if cs_id c = sid then f c else c) xs) =
           map_option (\<lambda>c. if cs_id c = sid then f c else c) (find (\<lambda>s. cs_id s = k) xs)"
  by (induction xs) (auto simp: assms)

lemma find_session_complete_test:
  "find_session (complete_test db sid s) k =
     map_option (\<lambda>c. if cs_id c = sid then c\<lparr>cs_status := pass_fail_decision s\<rparr> else c)
       (find_session db k)"
  by (simp add: find_session_def complete_test_def find_map_session)

lemma find_session_record_selection:
  "find_session (record_selection db sid s chosen) k =
     map_option (\<lambda>c. if cs_id c = sid
                      then c\<lparr>cs_questions_answered := cs_questions_answered c + 1\<rparr> else c)
       (find_session db k)"
  by (simp add: find_session_def record_selection_def find_map_session)

lemma pass_fail_decision_cases:
  "pass_fail_decision s = ''passed'' \<or> pass_fail_decision s = ''failed''"
  by (simp add: pass_fail_decision_def)

text \<open>The three ways \<^verbatim>\<open>get_next_cat_question\<close> returns for an authorised caller.\<close>

lemma get_next_completed:
  assumes "find_session db sid = Some s" and "cs_user_id s = uid"
    and "cs_status s \<noteq> ''in_progress''"
  shows "get_next_cat_question rnd1 rnd2 uid db sid =
           Inr (Completed (cs_status s) (cs_current_ability s) (cs_questions_answered s), db)"
  using assms by (simp add: get_next_cat_question_def)

lemma get_next_terminates:
  assumes "find_session db sid = Some s" and "cs_user_id s = uid"
    and "cs_status s = ''in_progress''" and "test_complete s"
  shows "get_next_cat_question rnd1 rnd2 uid db sid =
           Inr (Completed (pass_fail_decision s) (cs_current_ability s)
                  (cs_questions_answered s),
                complete_test db sid s)"
  using assms by (simp add: get_next_cat_question_def)

lemma get_next_selects:
  assumes "find_session db sid = Some s" and "cs_user_id s = uid"
    and "cs_status s = ''in_progress''" and "\<not> test_complete s"
  shows "get_next_cat_question rnd1 rnd2 uid db sid =
           Inr (NextQuestion
                  (fst (question_details
                     (record_selection db sid s (item_selector rnd1 rnd2 db sid s))
                     (snd (item_selector rnd1 rnd2 db sid s))))
                  (snd (question_details
                     (record_selection db sid s (item_selector rnd1 rnd2 db sid s))
                     (snd (item_selector rnd1 rnd2 db sid s))))
                  (cs_questions_answered s + 1),
                record_selection db sid s (item_selector rnd1 rnd2 db sid s))"
  using assms by (simp add: get_next_cat_question_def Let_def)

text \<open>Whatever \<^verbatim>\<open>get_next_cat_question\<close> returns, a status changes only from in progress to a decision.\<close>

lemma get_next_status_forward:
  assumes "get_next_cat_question rnd1 rnd2 uid db sid = Inr (r, db')"
    and "find_session db k = Some c"
  shows "\<exists>c'. find_session db' k = Some c' \<and>
           (cs_status c' = cs_status c \<or>
            cs_status c = ''in_progress'' \<and> (cs_status c' = ''passed'' \<or> cs_status c' = ''failed''))"
proof -
  from assms(1) obtain s where s: "find_session db sid = Some s"
    by (auto simp: get_next_cat_question_def split: option.splits)
  from assms(1) s have auth: "cs_user_id s = uid"
    by (auto simp: get_next_cat_question_def split: if_splits)
  consider (over) "cs_status s \<noteq> ''in_progress''"
    | (stop) "cs_status s = ''in_progress''" "test_complete s"
    | (serve) "cs_status s = ''in_progress''" "\<not> test_complete s"
    by blast
  then show ?thesis
  proof cases
    case over
    from get_next_completed[OF s auth over, of rnd1 rnd2] assms show ?thesis
      by simp
  next
    case stop
    from get_next_terminates[OF s auth stop, of rnd1 rnd2] assms(1)
    have db': "db' = complete_test db sid s"
      by simp
    show ?thesis
    proof (cases "cs_id c = sid")
      case True
      with assms(2) s find_session_id[OF assms(2)] have "c = s"
        by simp
      with True stop assms(2) pass_fail_decision_cases[of s] show ?thesis
        by (auto simp: db' find_session_complete_test)
    next
      case False
      with assms(2) show ?thesis
        by (simp add: db' find_session_complete_test)
    qed
  next
    case serve
    from get_next_selects[OF s auth serve, of rnd1 rnd2] assms(1)
    have "db' = record_selection db sid s (item_selector rnd1 rnd2 db sid s)"
      by simp
    with assms(2) show ?thesis
      by (simp add: find_session_record_selection)
  qed
qed

subsection \<open>A successful submission\<close>

lemma upsert_question_status_success:
  assumes "upsert_question_status uid db qid v = Inr db1"
  shows "tests db1 = tests db" and "questions db1 = questions db"
    and "answers db1 = answers db" and "test_results db1 = test_results db"
    and "test_results_id_seq db1 = test_results_id_seq db"
    and "test_questions db1 = test_questions db"
    and "cat_sessions db1 = cat_sessions db"
    and "cat_question_selections db1 = cat_question_selections db"
    and "question_difficulty_parameters db1 = question_difficulty_parameters db"
    and "list_ex (\<lambda>u. uqs_user_id u = uid \<and> uqs_question_id u = qid) (user_question_status db1)"
proof -
  let ?P = "\<lambda>u. uqs_user_id u = uid \<and> uqs_question_id u = qid"
  have keep: "list_ex ?P (map (\<lambda>u. if ?P u then f u else u) xs)"
    if "list_ex ?P xs" "\<And>u. ?P u \<Longrightarrow> ?P (f u)" for f xs
    using that by (induction xs) auto
  show "tests db1 = tests db" "questions db1 = questions db" "answers db1 = answers db"
    "test_results db1 = test_results db" "test_results_id_seq db1 = test_results_id_seq db"
    "test_questions db1 = test_questions db" "cat_sessions db1 = cat_sessions db"
    "cat_question_selections db1 = cat_question_selections db"
    "question_difficulty_parameters db1 = question_difficulty_parameters db"
    using assms by (auto simp: upsert_question_status_def split: if_splits)
  show "list_ex ?P (user_question_status db1)"
  proof (cases "list_ex ?P (user_question_status db)")
    case True
    with assms have "user_question_status db1 =
        map (\<lambda>u. if ?P u then u\<lparr>uqs_status := status_of v,
                                    uqs_attempt_count := uqs_attempt_count u + 1\<rparr> else u)
          (user_question_status db)"
      by (auto simp: upsert_question_status_def)
    with keep[OF True] show ?thesis
      by simp
  next
    case False
    with assms show ?thesis
      by (auto simp: upsert_question_status_def split: if_splits)
  qed
qed


lemma insert_test_result_success:
  assumes "insert_test_result db row = Inr (i, db1)"
  shows "tests db1 = tests db" and "questions db1 = questions db"
    and "answers db1 = answers db"
    and "user_question_status db1 = user_question_status db"
    and "test_questions db1 = test_questions db"
    and "cat_sessions db1 = cat_sessions db"
    and "cat_question_selections db1 = cat_question_selections db"
    and "question_difficulty_parameters db1 = question_difficulty_parameters db"
    and "test_results db1 = test_results db @ [row\<lparr>tr_id := i\<rparr>]"
    and "i = test_results_id_seq db"
    and "question_exists db (tr_question_id row)"
    and "\<not> list_ex (\<lambda>r. tr_test_id r = tr_test_id row \<and> tr_question_id r = tr_question_id row)
             (test_results db)"
  using assms
  by (auto simp: insert_test_result_def split: if_splits)

text \<open>
  A call of \<^verbatim>\<open>submit_test_answer\<close> that returns has found the user's test, has scored the
  response, and has added one result row for the test and the question; it leaves the
  CAT tables as they are.
\<close>

lemma submit_test_answer_success:
  assumes "submit_test_answer uid db tid qid resp t fl = Inr (res, db1)"
  shows "list_ex (\<lambda>t. t_id t = tid \<and> t_user_id t = uid) (tests db)"
    and "(is_correct res, score res, max_score res) = calculate_score db qid resp"
    and "result_id res = test_results_id_seq db"
    and "tests db1 = tests db" and "questions db1 = questions db"
    and "answers db1 = answers db" and "test_questions db1 = test_questions db"
    and "cat_sessions db1 = cat_sessions db"
    and "cat_question_selections db1 = cat_question_selections db"
    and "question_difficulty_parameters db1 = question_difficulty_parameters db"
    and "\<exists>row. test_results db1 = test_results db @ [row] \<and> tr_test_id row = tid \<and>
           tr_question_id row = qid \<and> tr_is_correct row = is_correct res \<and>
           tr_score row = score res \<and> tr_max_score row = max_score res \<and>
           tr_user_response row = resp"
    and "list_ex (\<lambda>u. uqs_user_id u = uid \<and> uqs_question_id u = qid) (user_question_status db1)"
    and "question_exists db qid"
    and "\<not> list_ex (\<lambda>r. tr_test_id r = tid \<and> tr_question_id r = qid) (test_results db)"
proof -
  obtain v sc mx where cs: "calculate_score db qid resp = (v, sc, mx)"
    by (cases "calculate_score db qid resp") auto
  from assms have owner: "list_ex (\<lambda>t. t_id t = tid \<and> t_user_id t = uid) (tests db)"
    by (auto simp: submit_test_answer_def split: if_splits)
  from assms cs owner obtain dbu where
    u: "upsert_question_status uid db qid v = Inr dbu"
    by (auto simp: submit_test_answer_def split: sum.splits)
  let ?row = "\<lparr>tr_id = 0, tr_test_id = tid, tr_user_id = uid, tr_question_id = qid,
               tr_user_response = resp, tr_is_correct = v, tr_score = sc, tr_max_score = mx,
               tr_time_spent_seconds = t, tr_is_flagged = fl\<rparr>"
  from assms cs owner u obtain i where
    ins: "insert_test_result dbu ?row = Inr (i, db1)"
    and res: "res = \<lparr>result_id = i, is_correct = v, score = sc, max_score = mx\<rparr>"
    by (auto simp: submit_test_answer_def split: sum.splits)
  note U = upsert_question_status_success[OF u]
  note I = insert_test_result_success[OF ins]
  show "list_ex (\<lambda>t. t_id t = tid \<and> t_user_id t = uid) (tests db)"
    by (rule owner)
  show "(is_correct res, score res, max_score res) = calculate_score db qid resp"
    by (simp add: res cs)
  show "result_id res = test_results_id_seq db"
    using I(10) U(5) by (simp add: res)
  show "tests db1 = tests db"
    using I(1) U(1) by simp
  show "questions db1 = questions db"
    using I(2) U(2) by simp
  show "answers db1 = answers db"
    using I(3) U(3) by simp
  show "test_questions db1 = test_questions db"
    using I(5) U(6) by simp
  show "cat_sessions db1 = cat_sessions db"
    using I(6) U(7) by simp
  show "cat_question_selections db1 = cat_question_selections db"
    using I(7) U(8) by simp
  show "question_difficulty_parameters db1 = question_difficulty_parameters db"
    using I(8) U(9) by simp
  show "\<exists>row. test_results db1 = test_results db @ [row] \<and> tr_test_id row = tid \<and>
           tr_question_id row = qid \<and> tr_is_correct row = is_correct res \<and>
           tr_score row = score res \<and> tr_max_score row = max_score res \<and>
           tr_user_response row = resp"
    using I(9) U(4) by (intro exI[of _ "?row\<lparr>tr_id := i\<rparr>"]) (simp add: res)
  show "list_ex (\<lambda>u. uqs_user_id u = uid \<and> uqs_question_id u = qid) (user_question_status db1)"
    using I(4) U(10) by simp
  show "question_exists db qid"
    using I(11) U(2) by (simp add: question_exists_def)
  show "\<not> list_ex (\<lambda>r. tr_test_id r = tid \<and> tr_question_id r = qid) (test_results db)"
    using I(12) U(4) by simp
qed

text \<open>
  The \<^verbatim>\<open>UPDATE ... RETURNING id\<close> that returns has set \<^verbatim>\<open>was_correct\<close> on every selection of
  the session for the question, of which there is at most one, and returns its key.
\<close>

lemma record_was_correct_success:
  assumes "record_was_correct db sid qid v = Inr (sel, db2)"
  shows "tests db2 = tests db" and "questions db2 = questions db"
    and "answers db2 = answers db" and "test_results db2 = test_results db"
    and "user_question_status db2 = user_question_status db"
    and "test_questions db2 = test_questions db"
    and "cat_sessions db2 = cat_sessions db"
    and "question_difficulty_parameters db2 = question_difficulty_parameters db"
    and "cat_question_selections db2 =
           map (\<lambda>c. if sel_cat_session_id c = sid \<and> sel_question_id c = Some qid
                     then c\<lparr>sel_was_correct := v\<rparr> else c)
             (cat_question_selections db)"
    and "\<forall>c \<in> set (cat_question_selections db).
           sel_cat_session_id c = sid \<and> sel_question_id c = Some qid \<longrightarrow> sel = Some (sel_id c)"
proof -
  let ?hit = "\<lambda>c. sel_cat_session_id c = sid \<and> sel_question_id c = Some qid"
  let ?db1 = "db\<lparr>cat_question_selections :=
                 map (\<lambda>c. if ?hit c then c\<lparr>sel_was_correct := v\<rparr> else c)
                   (cat_question_selections db)\<rparr>"
  from assms have db2: "db2 = ?db1"
    by (auto simp: record_was_correct_def Let_def split: list.splits)
  show "tests db2 = tests db" "questions db2 = questions db" "answers db2 = answers db"
    "test_results db2 = test_results db" "user_question_status db2 = user_question_status db"
    "test_questions db2 = test_questions db" "cat_sessions db2 = cat_sessions db"
    "question_difficulty_parameters db2 = question_difficulty_parameters db"
    "cat_question_selections db2 =
       map (\<lambda>c. if ?hit c then c\<lparr>sel_was_correct := v\<rparr> else c) (cat_question_selections db)"
    by (simp_all add: db2)
  show "\<forall>c \<in> set (cat_question_selections db). ?hit c \<longrightarrow> sel = Some (sel_id c)"
  proof (intro ballI impI)
    fix c
    assume c: "c \<in> set (cat_question_selections db)" and h: "?hit c"
    then have mem: "c \<in> set (filter ?hit (cat_question_selections db))"
      by simp
    show "sel = Some (sel_id c)"
    proof (cases "filter ?hit (cat_question_selections db)")
      case Nil
      with mem show ?thesis
        by simp
    next
      case (Cons x xs)
      show ?thesis
      proof (cases xs)
        case Nil
        with Cons mem have "c = x"
          by simp
        with assms Cons Nil show ?thesis
          by (simp add: record_was_correct_def Let_def)
      next
        case (Cons y ys)
        with assms \<open>filter ?hit (cat_question_selections db) = x # xs\<close> show ?thesis
          by (simp add: record_was_correct_def Let_def)
      qed
    qed
  qed
qed

text \<open>
  The shape of every call of \<^verbatim>\<open>submit_cat_answer\<close> that returns: the session exists and is the
  caller's, the answer was scored and stored, \<^verbatim>\<open>was_correct\<close> was recorded, the estimator ran
  on the database with that record, and its estimate was written to the selection and to
  the session. Nothing else of the session changes.
\<close>

lemma submit_cat_answer_success:
  assumes "submit_cat_answer uid db sid qid resp t = Inr (r, db')"
  obtains s res db1 sel db2 v where
    "find_session db sid = Some s" and "cs_user_id s = uid"
    and "submit_test_answer uid db (cs_test_id s) qid resp t False = Inr (res, db1)"
    and "record_was_correct db1 sid qid (is_correct res) = Inr (sel, db2)"
    and "estimate_ability_mle db2 sid = Some v"
    and "car_is_correct r = is_correct res" and "car_score r = score res"
    and "car_ability r = Some v"
    and "car_questions_answered r = Some (cs_questions_answered s)"
    and "cat_question_selections db' =
           map (\<lambda>c. if Some (sel_id c) = sel then c\<lparr>sel_ability_estimate_after := Some v\<rparr> else c)
             (cat_question_selections db2)"
    and "cat_sessions db' =
           map (\<lambda>c. if cs_id c = sid then c\<lparr>cs_current_ability := v\<rparr> else c) (cat_sessions db)"
    and "tests db' = tests db" and "questions db' = questions db"
    and "test_results db' = test_results db1"
    and "user_question_status db' = user_question_status db1"
    and "find_session db' sid = Some (s\<lparr>cs_current_ability := v\<rparr>)"
proof -
  from assms obtain s where s: "find_session db sid = Some s"
    by (auto simp: submit_cat_answer_def split: option.splits)
  from assms s have auth: "cs_user_id s = uid"
    by (auto simp: submit_cat_answer_def split: if_splits)
  from assms s auth obtain res db1 where
    st: "submit_test_answer uid db (cs_test_id s) qid resp t False = Inr (res, db1)"
    by (auto simp: submit_cat_answer_def split: sum.splits)
  from assms s auth st obtain sel db2 where
    rw: "record_was_correct db1 sid qid (is_correct res) = Inr (sel, db2)"
    by (auto simp: submit_cat_answer_def split: sum.splits)
  note S = submit_test_answer_success[OF st]
  note W = record_was_correct_success[OF rw]
  have sessions2: "cat_sessions db2 = cat_sessions db"
    using W(7) S(8) by simp
  then have s2: "find_session db2 sid = Some s"
    using s by (simp add: find_session_def)
  then obtain v where v: "estimate_ability_mle db2 sid = Some v"
    by (simp add: estimate_ability_mle_def)
  let ?db3 = "db2\<lparr>cat_question_selections :=
                    map (\<lambda>c. if Some (sel_id c) = sel
                              then c\<lparr>sel_ability_estimate_after := Some v\<rparr> else c)
                      (cat_question_selections db2)\<rparr>"
  let ?db4 = "?db3\<lparr>cat_sessions :=
                    map (\<lambda>c. if cs_id c = sid then c\<lparr>cs_current_ability := v\<rparr> else c)
                      (cat_sessions ?db3)\<rparr>"
  let ?r = "\<lparr>car_is_correct = is_correct res, car_score = score res,
              car_ability = Some v,
              car_questions_answered =
                map_option cs_questions_answered (find_session ?db4 sid)\<rparr>"
  have eq: "submit_cat_answer uid db sid qid resp t = Inr (?r, ?db4)"
    by (simp add: submit_cat_answer_def s auth st rw v Let_def cong: if_cong)
  have "Inr (?r, ?db4) = (Inr (r, db') :: error + cat_answer_result \<times> database)"
    by (rule trans[OF eq[symmetric] assms])
  then have both: "?r = r" "?db4 = db'"
    by blast+
  note db' = both(2)[symmetric]
  note r = both(1)[symmetric]
  have f4: "find_session ?db4 sid = Some (s\<lparr>cs_current_ability := v\<rparr>)"
    using s2 find_session_id[OF s] by (simp add: find_session_def find_map_session)
  show ?thesis
  proof (rule that[OF s auth st rw v])
    show "car_is_correct r = is_correct res" "car_score r = score res"
      "car_ability r = Some v"
      by (simp_all add: r)
    show "car_questions_answered r = Some (cs_questions_answered s)"
      using f4 by (simp add: r)
    show "cat_question_selections db' =
           map (\<lambda>c. if Some (sel_id c) = sel then c\<lparr>sel_ability_estimate_after := Some v\<rparr> else c)
             (cat_question_selections db2)"
      by (simp add: db')
    show "cat_sessions db' =
           map (\<lambda>c. if cs_id c = sid then c\<lparr>cs_current_ability := v\<rparr> else c) (cat_sessions db)"
      using sessions2 by (simp add: db')
    show "tests db' = tests db"
      using W(1) S(4) by (simp add: db')
    show "questions db' = questions db"
      using W(2) S(5) by (simp add: db')
    show "test_results db' = test_results db1"
      using W(4) by (simp add: db')
    show "user_question_status db' = user_question_status db1"
      using W(5) by (simp add: db')
    show "find_session db' sid = Some (s\<lparr>cs_current_ability := v\<rparr>)"
      using f4 by (simp add: db')
  qed
qed

lemma submit_cat_answer_status:
  assumes "submit_cat_answer uid db sid qid resp t = Inr (r, db')"
    and "find_session db k = Some c"
  shows "\<exists>c'. find_session db' k = Some c' \<and> cs_status c' = cs_status c"
proof -
  from assms(1) show ?thesis
  proof (rule submit_cat_answer_success)
    fix v
    assume "cat_sessions db' =
       map (\<lambda>c. if cs_id c = sid then c\<lparr>cs_current_ability := v\<rparr> else c) (cat_sessions db)"
    with assms(2) show ?thesis
      by (auto simp: find_session_def find_map_session)
  qed
qed

subsection \<open>A created test\<close>

lemma question_pool_insert_test:
  "question_pool rnd uid (insert_test db uid' title topics') topics =
     question_pool rnd uid db topics"
  by (simp add: question_pool_def eligible_rows_def insert_test_def)


text \<open>
  The shape of every call of \<^verbatim>\<open>create_cat_test\<close> that creates a session: the pool is not
  empty, its questions are linked to the new test in order, and one session is added.
\<close>

lemma create_cat_test_success:
  assumes "create_cat_test rnd uid db title topics pmin pmax pstd = Inr (Created tid sid n, db')"
  shows "n = int (length (question_pool rnd uid db topics))" and "0 < n"
    and "tid = tests_id_seq db" and "sid = cat_sessions_id_seq db"
    and "cat_sessions db' = cat_sessions db @
           [\<lparr>cs_id = sid, cs_test_id = tid, cs_user_id = uid, cs_initial_ability = 0,
             cs_current_ability = 0, cs_passing_standard = pstd, cs_min_questions = pmin,
             cs_max_questions = min pmax n, cs_questions_answered = 0,
             cs_status = ''in_progress''\<rparr>]"
    and "test_questions db' = test_questions db @
           map (\<lambda>qn. \<lparr>tq_test_id = tid, tq_question_id = fst qn, tq_question_order = snd qn\<rparr>)
             (zip (question_pool rnd uid db topics) [1 .. n])"
proof -
  let ?pool = "question_pool rnd uid db topics"
  let ?n = "int (length ?pool)"
  let ?tid = "tests_id_seq db"
  let ?db1 = "insert_test db uid title topics"
  let ?db3 = "set_question_count (link_questions ?db1 ?tid ?pool) ?tid ?n"
  let ?db4 = "insert_session ?db3 ?tid uid pstd pmin pmax ?n"
  let ?clash = "\<not> distinct ?pool \<or>
      list_ex (\<lambda>tq. tq_test_id tq = ?tid \<and> tq_question_id tq \<in> set ?pool) (test_questions ?db1)"
  have nz: "?n \<noteq> 0"
  proof
    assume "?n = 0"
    then have "\<exists>d. create_cat_test rnd uid db title topics pmin pmax pstd =
                    Inr (NoQuestionsAvailable, d)"
      by (simp add: create_cat_test_def Let_def question_pool_insert_test)
    with assms show False
      by auto
  qed
  have nc: "\<not> ?clash"
  proof
    assume ?clash
    with nz have "create_cat_test rnd uid db title topics pmin pmax pstd = Inl UniqueViolation"
      by (simp add: create_cat_test_def Let_def question_pool_insert_test)
    with assms show False
      by simp
  qed
  from nz nc have eq: "create_cat_test rnd uid db title topics pmin pmax pstd =
      Inr (Created ?tid (cat_sessions_id_seq ?db3) ?n, ?db4)"
    by (simp add: create_cat_test_def Let_def question_pool_insert_test)
  have made: "Inr (Created ?tid (cat_sessions_id_seq ?db3) ?n, ?db4) =
      (Inr (Created tid sid n, db') :: error + create_result \<times> database)"
    by (rule trans[OF eq[symmetric] assms])
  then have parts: "?tid = tid" "cat_sessions_id_seq ?db3 = sid" "?n = n" "?db4 = db'"
    by blast+
  note tid = parts(1)[symmetric] and n = parts(3)[symmetric] and db' = parts(4)[symmetric]
  from parts(2) have sid: "sid = cat_sessions_id_seq db"
    by (simp add: set_question_count_def link_questions_def insert_test_def)
  show "n = int (length ?pool)"
    by (rule n)
  show "0 < n"
    using nz by (simp add: n)
  show "tid = tests_id_seq db"
    by (rule tid)
  show "sid = cat_sessions_id_seq db"
    by (rule sid)
  show "cat_sessions db' = cat_sessions db @
           [\<lparr>cs_id = sid, cs_test_id = tid, cs_user_id = uid, cs_initial_ability = 0,
             cs_current_ability = 0, cs_passing_standard = pstd, cs_min_questions = pmin,
             cs_max_questions = min pmax n, cs_questions_answered = 0,
             cs_status = ''in_progress''\<rparr>]"
    by (simp add: db' tid n sid insert_session_def set_question_count_def link_questions_def
        insert_test_def)
  show "test_questions db' = test_questions db @
           map (\<lambda>qn. \<lparr>tq_test_id = tid, tq_question_id = fst qn, tq_question_order = snd qn\<rparr>)
             (zip ?pool [1 .. n])"
    by (simp add: db' tid n insert_session_def set_question_count_def link_questions_def
        insert_test_def)
qed

lemma create_cat_test_sessions:
  assumes "create_cat_test rnd uid db title topics pmin pmax pstd = Inr (r, db')"
  shows "\<exists>new. cat_sessions db' = cat_sessions db @ new"
proof (cases r)
  case (Created tid sid n)
  with create_cat_test_success(5)[of rnd uid db title topics pmin pmax pstd tid sid n db'] assms
  show ?thesis
    by blast
next
  case NoQuestionsAvailable
  let ?db1 = "insert_test db uid title topics"
  let ?d = "?db1\<lparr>tests := filter (\<lambda>t. t_id t \<noteq> tests_id_seq db) (tests ?db1)\<rparr>"
  have "create_cat_test rnd uid db title topics pmin pmax pstd = Inr (NoQuestionsAvailable, ?d)
        \<or> create_cat_test rnd uid db title topics pmin pmax pstd = Inl UniqueViolation
        \<or> (\<exists>a b c d. create_cat_test rnd uid db title topics pmin pmax pstd =
              Inr (Created a b c, d))"
    by (simp add: create_cat_test_def Let_def)
  with assms NoQuestionsAvailable have "Inr (NoQuestionsAvailable, ?d) =
      (Inr (NoQuestionsAvailable, db') :: error + create_result \<times> database)"
    by auto
  then have "?d = db'"
    by blast
  then have "cat_sessions db' = cat_sessions ?d"
    by (rule arg_cong[OF sym])
  then have "cat_sessions db' = cat_sessions db"
    by (simp add: insert_test_def)
  then show ?thesis
    by simp
qed

lemma find_append_Some: "find P xs = Some x \<Longrightarrow> find P (xs @ ys) = Some x"
  by (induction xs) (auto split: if_splits)

lemma create_cat_test_keeps_sessions:
  assumes "create_cat_test rnd uid db title topics pmin pmax pstd = Inr (r, db')"
    and "find_session db k = Some c"
  shows "find_session db' k = Some c"
proof -
  from create_cat_test_sessions[OF assms(1)] obtain new where
    "cat_sessions db' = cat_sessions db @ new" ..
  with assms(2) show ?thesis
    by (simp add: find_session_def find_append_Some)
qed

subsection \<open>Completed sessions\<close>

text \<open>
  Claim C7. For a session whose status is not \<^verbatim>\<open>'in_progress'\<close>, \<^verbatim>\<open>get_next_cat_question\<close> called
  by the owner returns that status with the ability and the number of questions answered,
  raises nothing and leaves the database as it is. Under each of the three operations the
  status of any session either stays what it is or goes from \<^verbatim>\<open>'in_progress'\<close> to \<^verbatim>\<open>'passed'\<close> or
  \<^verbatim>\<open>'failed'\<close>: no operation sets a status back to \<^verbatim>\<open>'in_progress'\<close>.
\<close>

theorem completed_session_is_final:
  "(find_session db sid = Some s \<and> cs_user_id s = uid \<and> cs_status s \<noteq> ''in_progress'' \<longrightarrow>
      get_next_cat_question rnd1 rnd2 uid db sid =
        Inr (Completed (cs_status s) (cs_current_ability s) (cs_questions_answered s), db))
   \<and> (get_next_cat_question rnd1 rnd2 uid db sid = Inr (r, db') \<and> find_session db k = Some c \<longrightarrow>
      (\<exists>c'. find_session db' k = Some c' \<and>
         (cs_status c' = cs_status c \<or>
          cs_status c = ''in_progress'' \<and>
          (cs_status c' = ''passed'' \<or> cs_status c' = ''failed''))))
   \<and> (submit_cat_answer uid db sid qid resp t = Inr (r2, db2) \<and> find_session db k = Some c \<longrightarrow>
      (\<exists>c'. find_session db2 k = Some c' \<and> cs_status c' = cs_status c))
   \<and> (create_cat_test rnd uid db title topics pmin pmax pstd = Inr (r3, db3) \<and>
      find_session db k = Some c \<longrightarrow> find_session db3 k = Some c)"
proof (intro conjI impI)
  assume h: "find_session db sid = Some s \<and> cs_user_id s = uid \<and>
               cs_status s \<noteq> ''in_progress''"
  show "get_next_cat_question rnd1 rnd2 uid db sid =
        Inr (Completed (cs_status s) (cs_current_ability s) (cs_questions_answered s), db)"
    by (rule get_next_completed[OF h[THEN conjunct1] h[THEN conjunct2, THEN conjunct1]
          h[THEN conjunct2, THEN conjunct2]])
next
  assume h: "get_next_cat_question rnd1 rnd2 uid db sid = Inr (r, db') \<and>
               find_session db k = Some c"
  show "\<exists>c'. find_session db' k = Some c' \<and>
         (cs_status c' = cs_status c \<or>
          cs_status c = ''in_progress'' \<and>
          (cs_status c' = ''passed'' \<or> cs_status c' = ''failed''))"
    by (rule get_next_status_forward[OF h[THEN conjunct1] h[THEN conjunct2]])
next
  assume h: "submit_cat_answer uid db sid qid resp t = Inr (r2, db2) \<and>
               find_session db k = Some c"
  show "\<exists>c'. find_session db2 k = Some c' \<and> cs_status c' = cs_status c"
    by (rule submit_cat_answer_status[OF h[THEN conjunct1] h[THEN conjunct2]])
next
  assume h: "create_cat_test rnd uid db title topics pmin pmax pstd = Inr (r3, db3) \<and>
               find_session db k = Some c"
  show "find_session db3 k = Some c"
    by (rule create_cat_test_keeps_sessions[OF h[THEN conjunct1] h[THEN conjunct2]])
qed

lemma find_session_with_session: "cs_id s = 1 \<Longrightarrow> find_session (with_session s) 1 = Some s"
  by (simp add: find_session_def with_session_def)

theorem completed_session_is_final_witness:
  "find_session (with_session (example_session\<lparr>cs_status := ''passed''\<rparr>)) 1 =
     Some (example_session\<lparr>cs_status := ''passed''\<rparr>)
   \<and> cs_user_id (example_session\<lparr>cs_status := ''passed''\<rparr>) = ''u1''
   \<and> cs_status (example_session\<lparr>cs_status := ''passed''\<rparr>) \<noteq> ''in_progress''
   \<and> get_next_cat_question [] [] ''u1''
         (with_session (example_session\<lparr>cs_status := ''passed''\<rparr>)) 1 =
       Inr (Completed ''passed'' 0 1, with_session (example_session\<lparr>cs_status := ''passed''\<rparr>))"
proof -
  let ?s = "example_session\<lparr>cs_status := ''passed''\<rparr>"
  have f: "find_session (with_session ?s) 1 = Some ?s"
    by (rule find_session_with_session) (simp add: example_session_def)
  have u: "cs_user_id ?s = ''u1''" and p: "cs_status ?s \<noteq> ''in_progress''"
    by (simp_all add: example_session_def)
  have "get_next_cat_question [] [] ''u1'' (with_session ?s) 1 =
          Inr (Completed (cs_status ?s) (cs_current_ability ?s) (cs_questions_answered ?s),
               with_session ?s)"
    by (rule completed_session_is_final[THEN conjunct1, THEN mp]) (intro conjI f u p)
  then have "get_next_cat_question [] [] ''u1'' (with_session ?s) 1 =
          Inr (Completed ''passed'' 0 1, with_session ?s)"
    by (simp add: example_session_def)
  with f u p show ?thesis
    by (intro conjI)
qed

subsection \<open>Item selector\<close>




text \<open>The first draw decides the first row: it is the row at the draw's remainder.\<close>

lemma order_by_random_first:
  "xs \<noteq> [] \<Longrightarrow> hd (order_by_random (r # rs) xs) = xs ! (r mod length xs)"
  by (cases xs) (simp_all add: Let_def)

lemma order_by_random_reaches:
  assumes "x \<in> set xs"
  shows "\<exists>rs. hd (order_by_random rs xs) = x"
proof -
  from assms obtain i where i: "i < length xs" "xs ! i = x"
    by (auto simp: in_set_conv_nth)
  then have "xs \<noteq> []"
    by auto
  from order_by_random_first[OF this, of i "[]"] i have "hd (order_by_random [i] xs) = x"
    by simp
  then show ?thesis ..
qed

lemma candidates_mem:
  assumes "c \<in> set (candidates db sid tid)"
  shows "fst c \<in> set (questions db)" and "snd c \<in> set (question_difficulty_parameters db)"
    and "qdp_question_id (snd c) = q_id (fst c)" and "in_pool db tid (q_id (fst c))"
    and "not_yet_selected db sid (q_id (fst c))"
  using assms by (auto simp: candidates_def in_pool_def list_ex_iff)

lemma fallback_candidates_mem:
  "q \<in> set (fallback_candidates db sid tid) \<longleftrightarrow>
     (\<exists>x \<in> set (questions db). q_id x = q) \<and> in_pool db tid q \<and> not_yet_selected db sid q"
  by (auto simp: fallback_candidates_def in_pool_def list_ex_iff)

lemma candidates_fallback:
  assumes "c \<in> set (candidates db sid tid)"
  shows "q_id (fst c) \<in> set (fallback_candidates db sid tid)"
  using candidates_mem[OF assms] by (auto simp: fallback_candidates_mem)











subsection \<open>Stopping rule\<close>







subsection \<open>Selection of the next question\<close>

lemma calculate_information_nonneg:
  assumes "0 \<le> c" and "c < 1"
  shows "0 \<le> calculate_information t a b c"
proof -
  let ?p = "calculate_probability t a b c"
  have p: "c < ?p" "?p < 1"
    using assms by (rule calculate_probability_bounds)+
  with assms have pos: "0 < ?p" "0 < 1 - ?p" "0 < 1 - c"
    by simp_all
  have aa: "0 \<le> a * a"
    by simp
  have "0 \<le> (a * a) * ((?p - c) * (?p - c))"
    by (rule mult_nonneg_nonneg[OF aa]) simp
  then have num: "0 \<le> a * a * (?p - c) * (?p - c)"
    by (simp add: mult.assoc)
  have den: "0 < (1 - c) * (1 - c) * ?p * (1 - ?p)"
    using pos by simp
  have first: "0 \<le> (a * a * (?p - c) * (?p - c)) / ((1 - c) * (1 - c) * ?p * (1 - ?p))"
    using num den by (rule divide_nonneg_pos)
  have "0 \<le> (a * a) * (?p * (1 - ?p))"
    using pos by (intro mult_nonneg_nonneg[OF aa]) simp
  then have second: "0 \<le> a * a * ?p * (1 - ?p)"
    by (simp add: mult.assoc)
  from first second show ?thesis
    by (simp add: calculate_information_def Let_def)
qed






subsection \<open>Number of questions of a new session\<close>





subsection \<open>One answered question\<close>






subsection \<open>Submissions on the small database\<close>






subsection \<open>Effects of a submitted answer\<close>




subsection \<open>Submissions out of sequence\<close>






end
